theory Spec2Isabelle
  imports Main
begin

section \<open>Python string methods used by the notebooks\<close>

text \<open>
  Strings are lists of characters. Only the methods the two notebooks call are modelled:
  \<^verbatim>\<open>str.replace\<close>, \<^verbatim>\<open>str.split\<close> on a one-character separator, \<^verbatim>\<open>str.endswith\<close> and
  \<^verbatim>\<open>str.lstrip\<close> without argument.
\<close>

definition py_startswith :: "string \<Rightarrow> string \<Rightarrow> bool" where
  "py_startswith s p = (take (length p) s = p)"

definition py_endswith :: "string \<Rightarrow> string \<Rightarrow> bool" where
  "py_endswith s suf = (length suf \<le> length s \<and> drop (length s - length suf) s = suf)"

text \<open>
  \<^verbatim>\<open>s.replace(old, new)\<close> for a non-empty \<open>old\<close>: scan from the left, replace every
  occurrence found and continue behind it (occurrences never overlap).
\<close>

function replace_scan :: "string \<Rightarrow> string \<Rightarrow> string \<Rightarrow> string" where
  "replace_scan old new [] = []"
| "replace_scan old new (c # cs) =
     (if old \<noteq> [] \<and> py_startswith (c # cs) old
      then new @ replace_scan old new (drop (length old) (c # cs))
      else c # replace_scan old new cs)"
  by pat_completeness auto
termination
  by (relation "measure (\<lambda>(old, new, s). length s)") auto

text \<open>With an empty \<open>old\<close> Python puts \<open>new\<close> before every character and at the end.\<close>

definition py_replace :: "string \<Rightarrow> string \<Rightarrow> string \<Rightarrow> string" where
  "py_replace old new s =
     (if old = [] then new @ concat (map (\<lambda>c. c # new) s) else replace_scan old new s)"

text \<open>\<^verbatim>\<open>s.split(sep)\<close> for a separator of one character; the result is never empty.\<close>

fun py_split :: "char \<Rightarrow> string \<Rightarrow> string list" where
  "py_split sep [] = [[]]"
| "py_split sep (c # cs) =
     (if c = sep then [] # py_split sep cs
      else (c # hd (py_split sep cs)) # tl (py_split sep cs))"

text \<open>
  \<^verbatim>\<open>s.lstrip()\<close> drops leading white space. Of the characters \<^verbatim>\<open>str.isspace\<close> accepts,
  the one-byte ones are listed.
\<close>

definition py_isspace :: "char \<Rightarrow> bool" where
  "py_isspace c = (c \<in> set [CHR 0x09, CHR 0x0A, CHR 0x0B, CHR 0x0C, CHR 0x0D,
                             CHR 0x1C, CHR 0x1D, CHR 0x1E, CHR 0x1F, CHR 0x20])"

definition py_lstrip :: "string \<Rightarrow> string" where
  "py_lstrip s = dropWhile py_isspace s"

text \<open>Whether \<open>old\<close> occurs somewhere in \<open>s\<close> as a contiguous piece.\<close>

fun occurs_in :: "string \<Rightarrow> string \<Rightarrow> bool" where
  "occurs_in old [] = (old = [])"
| "occurs_in old (c # cs) = (py_startswith (c # cs) old \<or> occurs_in old cs)"


section \<open>Paths: \<^verbatim>\<open>os.path.join\<close> and \<^verbatim>\<open>os.path.basename\<close>\<close>

text \<open>
  \<^verbatim>\<open>os.path\<close> is \<^verbatim>\<open>posixpath\<close> or \<^verbatim>\<open>ntpath\<close>. The notebook's constants are Windows
  paths and it turns every backslash into a slash, so both are modelled. For Windows
  a leading drive letter with its colon is recognised; UNC and device prefixes are not.
\<close>

datatype platform = Posix | Windows

definition backslash :: char where
  "backslash = CHR 0x5C"

fun is_sep :: "platform \<Rightarrow> char \<Rightarrow> bool" where
  "is_sep Posix c = (c = CHR ''/'')"
| "is_sep Windows c = (c = CHR ''/'' \<or> c = backslash)"

fun os_sep :: "platform \<Rightarrow> char" where
  "os_sep Posix = CHR ''/''"
| "os_sep Windows = backslash"

fun splitdrive :: "platform \<Rightarrow> string \<Rightarrow> string \<times> string" where
  "splitdrive Posix p = ([], p)"
| "splitdrive Windows p =
     (if 2 \<le> length p \<and> p ! 1 = CHR '':'' then (take 2 p, drop 2 p) else ([], p))"

text \<open>
  \<^verbatim>\<open>os.path.join(a, name)\<close> where \<open>name\<close> is a directory entry (no separator, no
  drive): the separator is added unless the part of \<open>a\<close> behind the drive is empty or
  already ends in one.
\<close>

definition os_path_join :: "platform \<Rightarrow> string \<Rightarrow> string \<Rightarrow> string" where
  "os_path_join pf a name =
     (let rest = snd (splitdrive pf a)
      in if rest \<noteq> [] \<and> \<not> is_sep pf (last rest) then a @ [os_sep pf] @ name else a @ name)"

text \<open>\<^verbatim>\<open>os.path.basename(p)\<close>: what follows the last separator behind the drive.\<close>

definition os_path_basename :: "platform \<Rightarrow> string \<Rightarrow> string" where
  "os_path_basename pf p =
     rev (takeWhile (\<lambda>c. \<not> is_sep pf c) (rev (snd (splitdrive pf p))))"


section \<open>The scanned tree and \<^verbatim>\<open>os.walk\<close>\<close>

text \<open>
  A directory is the list of its entries in the order the operating system reports them;
  \<^verbatim>\<open>os.walk\<close> and \<^verbatim>\<open>os.listdir\<close> both follow that order. Symbolic links are not
  modelled.
\<close>

datatype entry = File string | Dir string "entry list"

fun entry_name :: "entry \<Rightarrow> string" where
  "entry_name (File n) = n"
| "entry_name (Dir n cs) = n"

text \<open>
  \<^verbatim>\<open>os.walk(top)\<close>, top-down: the directory itself, then each of its subdirectories in
  turn, the path of a subdirectory being \<^verbatim>\<open>os.path.join\<close> of the path and the name.
  Each item carries the path (\<^verbatim>\<open>root\<close>) and the entries of that directory, from
  which \<^verbatim>\<open>dirs\<close> and \<^verbatim>\<open>files\<close> are read.
\<close>

fun walk_dir :: "platform \<Rightarrow> string \<Rightarrow> entry list \<Rightarrow> (string \<times> entry list) list"
  and walk_sub :: "platform \<Rightarrow> string \<Rightarrow> entry list \<Rightarrow> (string \<times> entry list) list" where
  "walk_dir pf root es = (root, es) # walk_sub pf root es"
| "walk_sub pf root [] = []"
| "walk_sub pf root (File n # es) = walk_sub pf root es"
| "walk_sub pf root (Dir n cs # es) =
     walk_dir pf (os_path_join pf root n) cs @ walk_sub pf root es"

text \<open>
  \<^verbatim>\<open>os.walk\<close> swallows the error of scanning its argument, so an empty path (which
  names no directory) yields nothing.
\<close>

definition os_walk :: "platform \<Rightarrow> string \<Rightarrow> entry list \<Rightarrow> (string \<times> entry list) list" where
  "os_walk pf root es = (if root = [] then [] else walk_dir pf root es)"


section \<open>The deployment generator\<close>

text \<open>
  The module-level constants the functions read. \<^verbatim>\<open>src_folder\<close> is assigned but never
  read and is left out.
\<close>

record config =
  prefect_version :: string
  src_root :: string
  local_root :: string
  output_folder :: string

text \<open>
  The output side of the file system: what each path holds, keyed by the text of the
  path as the code passes it to the operating system. The output folder lies outside the
  scanned tree, so writing never changes what the walk sees.
\<close>

datatype node = Regular string | Directory

type_synonym store = "string \<rightharpoonup> node"

datatype py_error = FileExistsError | IsADirectoryError

text \<open>
  \<^verbatim>\<open>Path(p).mkdir(parents=True, exist_ok=True)\<close>: nothing happens when \<open>p\<close> is a
  directory already, and a file in its place raises. The store records \<open>p\<close> itself,
  not the parent directories created on the way.
\<close>

definition path_mkdir :: "string \<Rightarrow> store \<Rightarrow> py_error + store" where
  "path_mkdir p st =
     (case st p of Some (Regular _) \<Rightarrow> Inl FileExistsError | _ \<Rightarrow> Inr (st(p \<mapsto> Directory)))"

text \<open>
  \<^verbatim>\<open>with open(p, "w") as f: f.write(data)\<close>: the file is created or truncated and
  holds \<open>data\<close> afterwards; a directory in its place raises.
\<close>

definition open_write :: "string \<Rightarrow> string \<Rightarrow> store \<Rightarrow> py_error + store" where
  "open_write p data st =
     (case st p of Some Directory \<Rightarrow> Inl IsADirectoryError | _ \<Rightarrow> Inr (st(p \<mapsto> Regular data)))"

text \<open>
  The f-string of \<^verbatim>\<open>create_deployment_yaml\<close>, one element per line of the source.
  \<open>schedule_interval\<close> is a float in the source; the model carries the text that the
  f-string prints for it.
\<close>

definition yaml_template ::
  "config \<Rightarrow> string \<Rightarrow> string \<Rightarrow> string \<Rightarrow> string \<Rightarrow> string \<Rightarrow> string \<Rightarrow> string \<Rightarrow> string" where
  "yaml_template cfg project_name deployment_name entrypoint worker_pool
       schedule_interval schedule_timezone schedule_active = concat [
      ''# Welcome to your prefect.yaml file! You can use this file for storing and managing\<newline>'',
      ''# configuration for deploying your flows. We recommend committing this file to source\<newline>'',
      ''# control along with your flow code.\<newline>'',
      ''\<newline>'',
      ''# Generic metadata about this project\<newline>'',
      ''name: '' @ project_name @ ''\<newline>'',
      ''prefect-version: '' @ prefect_version cfg @ ''\<newline>'',
      ''\<newline>'',
      ''# build section allows you to manage and build docker images\<newline>'',
      ''build: null\<newline>'',
      ''\<newline>'',
      ''# push section allows you to manage if and how this project is uploaded to remote locations\<newline>'',
      ''push: null\<newline>'',
      ''\<newline>'',
      ''# pull section allows you to provide instructions for cloning this project in remote locations\<newline>'',
      ''pull:\<newline>'',
      ''- prefect.deployments.steps.set_working_directory:\<newline>'',
      ''    directory: '' @ src_root cfg @ ''\<newline>'',
      ''\<newline>'',
      ''# the deployments section allows you to provide configuration for deploying flows\<newline>'',
      ''deployments:\<newline>'',
      ''- name: '' @ deployment_name @ ''\<newline>'',
      ''  version: null\<newline>'',
      ''  tags: []\<newline>'',
      ''  concurrency_limit: null\<newline>'',
      ''  description: null\<newline>'',
      ''  entrypoint: '' @ entrypoint @ ''\<newline>'',
      ''  parameters: { }\<newline>'',
      ''  work_pool:\<newline>'',
      ''    name: '' @ worker_pool @ ''\<newline>'',
      ''    work_queue_name: null\<newline>'',
      ''    job_variables: { }\<newline>'',
      ''enforce_parameter_schema: true\<newline>'',
      ''schedules:\<newline>'',
      ''- interval: '' @ schedule_interval @ ''\<newline>'',
      ''  anchor_date: '2024-01-01T01:00:00+00:00'\<newline>'',
      ''  timezone: '' @ schedule_timezone @ ''\<newline>'',
      ''  active: '' @ schedule_active @ ''\<newline>'',
      ''  max_active_runs: null\<newline>'',
      ''  catchup: false\<newline>'']"

definition yaml_body ::
  "config \<Rightarrow> string \<Rightarrow> string \<Rightarrow> string \<Rightarrow> string \<Rightarrow> string \<Rightarrow> string \<Rightarrow> string \<Rightarrow> string" where
  "yaml_body cfg project_name deployment_name entrypoint worker_pool
       schedule_interval schedule_timezone schedule_active =
     py_lstrip (yaml_template cfg project_name deployment_name entrypoint worker_pool
       schedule_interval schedule_timezone schedule_active)"

definition output_path :: "config \<Rightarrow> string \<Rightarrow> string" where
  "output_path cfg deployment_name =
     output_folder cfg @ ''/'' @ deployment_name @ ''-deploy.yaml''"

definition create_deployment_yaml ::
  "config \<Rightarrow> string \<Rightarrow> string \<Rightarrow> string \<Rightarrow> string \<Rightarrow> string \<Rightarrow> string \<Rightarrow> string \<Rightarrow> string
     \<Rightarrow> store \<Rightarrow> py_error + store" where
  "create_deployment_yaml cfg project_name project_dir deployment_name entrypoint worker_pool
       schedule_interval schedule_timezone schedule_active st =
     (case path_mkdir (output_folder cfg) st of
        Inl e \<Rightarrow> Inl e
      | Inr st1 \<Rightarrow>
          open_write (output_path cfg deployment_name)
            (yaml_body cfg project_name deployment_name entrypoint worker_pool
               schedule_interval schedule_timezone schedule_active) st1)"

text \<open>The arguments of one call of \<^verbatim>\<open>create_deployment_yaml\<close>.\<close>

record call_args =
  project_name :: string
  project_dir :: string
  deployment_name :: string
  entrypoint :: string
  worker_pool :: string
  schedule_interval :: string
  schedule_timezone :: string
  schedule_active :: string

definition to_remote :: "config \<Rightarrow> string \<Rightarrow> string" where
  "to_remote cfg s =
     py_replace (local_root cfg) (src_root cfg) (py_replace [backslash] ''/'' s)"

text \<open>The body of the innermost loop: the call made for \<open>file\<close> found in \<open>root/d\<close>.\<close>

definition call_for :: "platform \<Rightarrow> config \<Rightarrow> string \<Rightarrow> string \<Rightarrow> string \<Rightarrow> call_args" where
  "call_for pf cfg root d file =
     (let deployment = hd (py_split CHR ''.'' file)
      in \<lparr> project_name = os_path_basename pf root,
           project_dir = to_remote cfg (root @ ''/'' @ d),
           deployment_name = deployment,
           entrypoint = to_remote cfg (root @ ''/'' @ d @ ''/'' @ deployment @ ''.py:'' @ deployment),
           worker_pool = ''default-worker-pool'',
           schedule_interval = ''3600.0'',
           schedule_timezone = ''UTC'',
           schedule_active = ''true'' \<rparr>)"

text \<open>
  \<^verbatim>\<open>for file in os.listdir(f"{root}/{d}")\<close>: the path names the subdirectory \<open>d\<close> that
  the walk has just reported, so the listing is the names of that entry's children,
  files and directories alike.
\<close>

definition calls_in_listing ::
  "platform \<Rightarrow> config \<Rightarrow> string \<Rightarrow> string \<Rightarrow> entry list \<Rightarrow> call_args list" where
  "calls_in_listing pf cfg root d cs =
     map (call_for pf cfg root d) (filter (\<lambda>file. py_endswith file ''.py'') (map entry_name cs))"

text \<open>\<^verbatim>\<open>for d in dirs: if d == 'src': ...\<close> for one item of the walk.\<close>

fun calls_in_dirs :: "platform \<Rightarrow> config \<Rightarrow> string \<Rightarrow> entry list \<Rightarrow> call_args list" where
  "calls_in_dirs pf cfg root [] = []"
| "calls_in_dirs pf cfg root (File n # es) = calls_in_dirs pf cfg root es"
| "calls_in_dirs pf cfg root (Dir d cs # es) =
     (if d = ''src'' then calls_in_listing pf cfg root d cs else [])
       @ calls_in_dirs pf cfg root es"

text \<open>All calls of one run, in the order the loops make them.\<close>

definition discovered :: "platform \<Rightarrow> config \<Rightarrow> entry list \<Rightarrow> call_args list" where
  "discovered pf cfg tree =
     concat (map (\<lambda>(root, es). calls_in_dirs pf cfg root es) (os_walk pf (local_root cfg) tree))"

definition apply_call :: "config \<Rightarrow> call_args \<Rightarrow> store \<Rightarrow> py_error + store" where
  "apply_call cfg c st =
     create_deployment_yaml cfg (project_name c) (project_dir c) (deployment_name c)
       (entrypoint c) (worker_pool c) (schedule_interval c) (schedule_timezone c)
       (schedule_active c) st"

text \<open>The calls are made one after the other; the first exception ends the run.\<close>

fun run_calls :: "config \<Rightarrow> call_args list \<Rightarrow> store \<Rightarrow> py_error + store" where
  "run_calls cfg [] st = Inr st"
| "run_calls cfg (c # cs) st =
     (case apply_call cfg c st of Inl e \<Rightarrow> Inl e | Inr st1 \<Rightarrow> run_calls cfg cs st1)"

definition generator :: "platform \<Rightarrow> config \<Rightarrow> entry list \<Rightarrow> store \<Rightarrow> py_error + store" where
  "generator pf cfg tree st = run_calls cfg (discovered pf cfg tree) st"

text \<open>What a complete run prints: one line for each call, before the call.\<close>

definition console_lines :: "platform \<Rightarrow> config \<Rightarrow> entry list \<Rightarrow> string list" where
  "console_lines pf cfg tree =
     map (\<lambda>c. ''Creating deployment for '' @ deployment_name c) (discovered pf cfg tree)"

definition call_body :: "config \<Rightarrow> call_args \<Rightarrow> string" where
  "call_body cfg c =
     yaml_body cfg (project_name c) (deployment_name c) (entrypoint c) (worker_pool c)
       (schedule_interval c) (schedule_timezone c) (schedule_active c)"

definition call_path :: "config \<Rightarrow> call_args \<Rightarrow> string" where
  "call_path cfg c = output_path cfg (deployment_name c)"


section \<open>The image tracing notebook\<close>

text \<open>
  \<^verbatim>\<open>file_to_svg\<close> calls Pillow and potrace. They are parameters of the model: opening
  an image, equalising it, and building and tracing the bitmap each return a value or
  raise. An exception is either an instance of \<^verbatim>\<open>Exception\<close>, carrying the text
  \<^verbatim>\<open>str(e)\<close>, or one of the others (\<^verbatim>\<open>KeyboardInterrupt\<close>, \<^verbatim>\<open>SystemExit\<close>), which
  \<^verbatim>\<open>except Exception\<close> does not catch.
\<close>

datatype py_exc = Exception string | BaseException string

type_synonym 'n point = "'n \<times> 'n"

datatype 'n segment =
    Corner "'n point" "'n point"
  | Bezier "'n point" "'n point" "'n point"

type_synonym 'n curve = "'n point \<times> 'n segment list"

record ('img, 'n) library =
  image_open :: "string \<Rightarrow> py_exc + 'img"
  image_equalize :: "'img \<Rightarrow> py_exc + 'img"
  bitmap_trace :: "'img \<Rightarrow> py_exc + 'n curve list"
  image_width :: "'img \<Rightarrow> int"
  image_height :: "'img \<Rightarrow> int"
  num_text :: "'n \<Rightarrow> string"

record world =
  console :: "string list"
  fs :: store

definition py_print :: "string \<Rightarrow> world \<Rightarrow> world" where
  "py_print line w = w\<lparr>console := console w @ [line]\<rparr>"

text \<open>Decimal text of an integer, as an f-string prints it.\<close>

function str_nat :: "nat \<Rightarrow> string" where
  "str_nat n =
     (if n < 10 then [char_of (48 + n)] else str_nat (n div 10) @ [char_of (48 + n mod 10)])"
  by pat_completeness auto
termination
  by (relation "measure id") auto

definition str_int :: "int \<Rightarrow> string" where
  "str_int i = (if i < 0 then CHR ''-'' # str_nat (nat (- i)) else str_nat (nat i))"

text \<open>
  \<^verbatim>\<open>os.path.splitext(p)[0]\<close>: the last dot of the last path component is where the
  extension starts, unless only dots precede it in that component.
\<close>

definition splitext_root :: "platform \<Rightarrow> string \<Rightarrow> string" where
  "splitext_root pf p =
     (let name = rev (takeWhile (\<lambda>c. \<not> is_sep pf c) (rev p));
          dir = take (length p - length name) p
      in if CHR ''.'' \<in> set (dropWhile (\<lambda>c. c = CHR ''.'') name)
         then dir @ rev (tl (dropWhile (\<lambda>c. c \<noteq> CHR ''.'') (rev name)))
         else p)"

definition point_text :: "('img, 'n) library \<Rightarrow> 'n point \<Rightarrow> string" where
  "point_text lib p = num_text lib (fst p) @ '','' @ num_text lib (snd p)"

fun segment_text :: "('img, 'n) library \<Rightarrow> 'n segment \<Rightarrow> string" where
  "segment_text lib (Corner a b) = ''L'' @ point_text lib a @ ''L'' @ point_text lib b"
| "segment_text lib (Bezier a b c) =
     ''C'' @ point_text lib a @ '' '' @ point_text lib b @ '' '' @ point_text lib c"

fun curve_parts :: "('img, 'n) library \<Rightarrow> 'n curve \<Rightarrow> string list" where
  "curve_parts lib (start_point, segments) =
     (''M'' @ point_text lib start_point) # map (segment_text lib) segments @ [''z'']"

text \<open>The three pieces written to the file, one after the other.\<close>

definition svg_text :: "('img, 'n) library \<Rightarrow> 'img \<Rightarrow> 'n curve list \<Rightarrow> string" where
  \<open>svg_text lib img plist =
     (''<svg version="1.1" xmlns="http://www.w3.org/2000/svg" xmlns:xlink="http://www.w3.org/1999/xlink" width="''
        @ str_int (image_width lib img) @ ''" height="'' @ str_int (image_height lib img)
        @ ''" viewBox="0 0 '' @ str_int (image_width lib img) @ '' ''
        @ str_int (image_height lib img) @ ''">'')
     @ (''<path stroke="none" fill="black" fill-rule="evenodd" d="''
        @ concat (concat (map (curve_parts lib) plist)) @ ''"/>'')
     @ ''</svg>''\<close>

text \<open>The two statements inside \<^verbatim>\<open>try\<close> that can raise.\<close>

definition load_image :: "('img, 'n) library \<Rightarrow> string \<Rightarrow> py_exc + 'img" where
  "load_image lib filename =
     (case image_open lib filename of Inl e \<Rightarrow> Inl e | Inr img \<Rightarrow> image_equalize lib img)"

fun error_name :: "py_error \<Rightarrow> string" where
  "error_name FileExistsError = ''FileExistsError''"
| "error_name IsADirectoryError = ''IsADirectoryError''"

text \<open>
  The result is the exception that reaches the caller, or \<open>None\<close> when the function
  returns, together with the console and the files it leaves behind.
\<close>

definition file_to_svg ::
  "('img, 'n) library \<Rightarrow> platform \<Rightarrow> string \<Rightarrow> world \<Rightarrow> py_exc option \<times> world" where
  "file_to_svg lib pf filename w =
     (let w1 = py_print (''Loading image '' @ filename @ ''...'') w
      in case load_image lib filename of
           Inl (Exception msg) \<Rightarrow>
             (None, py_print (''Failed to load image '' @ filename @ '': '' @ msg) w1)
         | Inl (BaseException msg) \<Rightarrow> (Some (BaseException msg), w1)
         | Inr img \<Rightarrow>
             (case bitmap_trace lib img of
                Inl e \<Rightarrow> (Some e, w1)
              | Inr plist \<Rightarrow>
                  (case open_write (splitext_root pf filename @ ''.svg'')
                          (svg_text lib img plist) (fs w1) of
                     Inl err \<Rightarrow> (Some (Exception (error_name err)), w1)
                   | Inr files \<Rightarrow> (None, w1\<lparr>fs := files\<rparr>))))"


section \<open>Vocabulary of the specification\<close>

text \<open>
  \<open>dir_at es ns es'\<close>: following the directory names \<open>ns\<close> downwards from a directory
  with entries \<open>es\<close> leads to a directory with entries \<open>es'\<close>.
\<close>

inductive dir_at :: "entry list \<Rightarrow> string list \<Rightarrow> entry list \<Rightarrow> bool" where
  here: "dir_at es [] es"
| below: "Dir n cs \<in> set es \<Longrightarrow> dir_at cs ns es' \<Longrightarrow> dir_at es (n # ns) es'"

text \<open>The path \<^verbatim>\<open>os.walk\<close> reports for the directory reached by \<open>ns\<close> from \<open>root\<close>.\<close>

definition path_of :: "platform \<Rightarrow> string \<Rightarrow> string list \<Rightarrow> string" where
  "path_of pf root ns = foldl (os_path_join pf) root ns"

text \<open>What the platform admits as the name of a directory entry.\<close>

fun wf_name :: "platform \<Rightarrow> string \<Rightarrow> bool" where
  "wf_name Posix n = (n \<noteq> [] \<and> CHR ''/'' \<notin> set n)"
| "wf_name Windows n =
     (n \<noteq> [] \<and> CHR ''/'' \<notin> set n \<and> backslash \<notin> set n \<and> CHR '':'' \<notin> set n)"

text \<open>
  The name of the directory reached by \<open>ns\<close> from the scanned root: its last component,
  and for the scanned root itself the base name of its path.
\<close>

definition dir_name :: "platform \<Rightarrow> string \<Rightarrow> string list \<Rightarrow> string" where
  "dir_name pf root ns = (if ns = [] then os_path_basename pf root else last ns)"

text \<open>The directory \<open>k\<close> levels above the one reached by \<open>ns\<close>, if the tree has one.\<close>

definition levels_above :: "nat \<Rightarrow> string list \<Rightarrow> string list option" where
  "levels_above k ns = (if k \<le> length ns then Some (take (length ns - k) ns) else None)"

text \<open>Whether some directory below has the name \<open>d\<close>.\<close>

fun contains_dir :: "string \<Rightarrow> entry list \<Rightarrow> bool" where
  "contains_dir d [] = False"
| "contains_dir d (File n # es) = contains_dir d es"
| "contains_dir d (Dir n cs # es) = (n = d \<or> contains_dir d cs \<or> contains_dir d es)"

text \<open>The five fixed lines every output file starts with, before the \<^verbatim>\<open>name\<close> field.\<close>

definition yaml_preamble :: string where
  "yaml_preamble = concat [
      ''# Welcome to your prefect.yaml file! You can use this file for storing and managing\<newline>'',
      ''# configuration for deploying your flows. We recommend committing this file to source\<newline>'',
      ''# control along with your flow code.\<newline>'',
      ''\<newline>'',
      ''# Generic metadata about this project\<newline>'']"

text \<open>The schedules list of an output file with the three configured values in place.\<close>

definition schedules_stanza :: "string \<Rightarrow> string \<Rightarrow> string \<Rightarrow> string" where
  "schedules_stanza interval timezone active = concat [
      ''schedules:\<newline>'',
      ''- interval: '' @ interval @ ''\<newline>'',
      ''  anchor_date: '2024-01-01T01:00:00+00:00'\<newline>'',
      ''  timezone: '' @ timezone @ ''\<newline>'',
      ''  active: '' @ active @ ''\<newline>'',
      ''  max_active_runs: null\<newline>'',
      ''  catchup: false\<newline>'']"

text \<open>
  The text of an output file before its \<^verbatim>\<open>entrypoint\<close> field, for a project name and a
  deployment name.
\<close>

definition yaml_upto_entrypoint :: "config \<Rightarrow> string \<Rightarrow> string \<Rightarrow> string" where
  "yaml_upto_entrypoint cfg project deployment = yaml_preamble @ concat [
      ''name: '' @ project @ ''\<newline>'',
      ''prefect-version: '' @ prefect_version cfg @ ''\<newline>'',
      ''\<newline>'',
      ''# build section allows you to manage and build docker images\<newline>'',
      ''build: null\<newline>'',
      ''\<newline>'',
      ''# push section allows you to manage if and how this project is uploaded to remote locations\<newline>'',
      ''push: null\<newline>'',
      ''\<newline>'',
      ''# pull section allows you to provide instructions for cloning this project in remote locations\<newline>'',
      ''pull:\<newline>'',
      ''- prefect.deployments.steps.set_working_directory:\<newline>'',
      ''    directory: '' @ src_root cfg @ ''\<newline>'',
      ''\<newline>'',
      ''# the deployments section allows you to provide configuration for deploying flows\<newline>'',
      ''deployments:\<newline>'',
      ''- name: '' @ deployment @ ''\<newline>'',
      ''  version: null\<newline>'',
      ''  tags: []\<newline>'',
      ''  concurrency_limit: null\<newline>'',
      ''  description: null\<newline>'']"

text \<open>The files a list of calls writes, and the stores in which no call can fail.\<close>

definition writes :: "config \<Rightarrow> call_args list \<Rightarrow> (string \<times> node) list" where
  "writes cfg cs = map (\<lambda>c. (call_path cfg c, Regular (call_body cfg c))) cs"

definition writable :: "config \<Rightarrow> call_args list \<Rightarrow> store \<Rightarrow> bool" where
  "writable cfg cs st =
     ((\<forall>d. st (output_folder cfg) \<noteq> Some (Regular d)) \<and>
      (\<forall>c\<in>set cs. st (call_path cfg c) \<noteq> Some Directory))"

text \<open>
  The path of a directory relative to the scanned root, written with slashes, and the
  entry point the specification describes: the remote root, the relative path of the
  \<^verbatim>\<open>src\<close> directory, the file name, a colon and the deployment name.
\<close>

definition rel_path :: "string list \<Rightarrow> string" where
  "rel_path ns = concat (map (\<lambda>n. CHR ''/'' # n) ns)"

definition substituted_entrypoint :: "config \<Rightarrow> string list \<Rightarrow> string \<Rightarrow> string \<Rightarrow> string" where
  "substituted_entrypoint cfg ns file dep =
     src_root cfg @ rel_path ns @ ''/src/'' @ file @ '':'' @ dep"

text \<open>
  A scanned root whose text can be found again behind the platform's separators: it has
  a part behind the drive, does not end in a separator and contains no backslash. A plain
  name is a proper entry name without a backslash.
\<close>

definition plain_root :: "platform \<Rightarrow> string \<Rightarrow> bool" where
  "plain_root pf root =
     (snd (splitdrive pf root) \<noteq> [] \<and> \<not> is_sep pf (last root) \<and> backslash \<notin> set root)"

definition plain_name :: "platform \<Rightarrow> string \<Rightarrow> bool" where
  "plain_name pf n = (wf_name pf n \<and> backslash \<notin> set n)"

text \<open>The first replacement of the loop, and the paths \<^verbatim>\<open>os.path.join\<close> extends by a separator.\<close>

definition slashed :: "string \<Rightarrow> string" where
  "slashed s = py_replace [backslash] ''/'' s"

definition open_ended :: "platform \<Rightarrow> string \<Rightarrow> bool" where
  "open_ended pf a =
     (snd (splitdrive pf a) \<noteq> [] \<and> \<not> is_sep pf (last (snd (splitdrive pf a))))"

text \<open>
  The store a successful run of the calls \<open>cs\<close> leaves behind: the output directory
  exists, and each written path holds what the last call writing it wrote.
\<close>

definition final_store :: "config \<Rightarrow> call_args list \<Rightarrow> store \<Rightarrow> store" where
  "final_store cfg cs st =
     (if cs = [] then st
      else (st(output_folder cfg \<mapsto> Directory)) ++ map_of (rev (writes cfg cs)))"


section \<open>Example inputs\<close>

text \<open>A library in which no image can be opened.\<close>

definition unreadable_library :: "(unit, int) library" where
  "unreadable_library =
     \<lparr> image_open = (\<lambda>filename. Inl (Exception ''cannot identify image file'')),
       image_equalize = Inr,
       bitmap_trace = (\<lambda>img. Inr []),
       image_width = (\<lambda>img. 0),
       image_height = (\<lambda>img. 0),
       num_text = str_int \<rparr>"

text \<open>The constants of the notebook.\<close>

definition notebook_config :: config where
  "notebook_config =
     \<lparr> prefect_version = ''3.0.1'',
       src_root = ''/prefect/src'',
       local_root = ''d:/Git/thinkstack_data_etl/src'',
       output_folder = ''d:/exports/prefect_jobs'' \<rparr>"

text \<open>Two projects whose source directories each hold a file of the same name.\<close>

definition collision_tree :: "entry list" where
  "collision_tree =
     [Dir ''proj1'' [Dir ''src'' [File ''flow_a.py'', File ''notes.txt'']],
      Dir ''proj2'' [Dir ''src'' [File ''flow_a.py'']]]"


text \<open>The call the generator makes for \<^verbatim>\<open>flow_a.py\<close> of a project of the collision tree.\<close>

definition flow_a_of :: "string \<Rightarrow> call_args" where
  "flow_a_of project =
     call_for Windows notebook_config
       (path_of Windows (local_root notebook_config) [project]) ''src'' ''flow_a.py''"

text \<open>One project with two flows, and one whose only file has two dots in its name.\<close>

definition one_project_tree :: "entry list" where
  "one_project_tree = [Dir ''proj1'' [Dir ''src'' [File ''flow_a.py'', File ''flow_b.py'']]]"

definition dotted_tree :: "entry list" where
  "dotted_tree = [Dir ''proj1'' [Dir ''src'' [File ''a.b.py'']]]"


section \<open>Facts about the string and path functions\<close>

lemma wf_name_nonempty: "wf_name pf n \<Longrightarrow> n \<noteq> []"
  by (cases pf) simp_all

lemma wf_name_nosep: "wf_name pf n \<Longrightarrow> c \<in> set n \<Longrightarrow> \<not> is_sep pf c"
  by (cases pf) auto

lemma wf_name_hd: "wf_name Windows n \<Longrightarrow> hd n \<noteq> CHR '':''"
  by (cases n) auto


lemma py_split_ne: "py_split sep s \<noteq> []"
  by (induction s) auto

lemma hd_py_split: "hd (py_split sep s) = takeWhile (\<lambda>c. c \<noteq> sep) s"
  by (induction s) auto

lemma replace_scan_absent:
  "\<not> occurs_in old s \<Longrightarrow> replace_scan old new s = s"
  by (induction s) auto

lemma replace_scan_prefix:
  "old \<noteq> [] \<Longrightarrow> replace_scan old new (old @ s) = new @ replace_scan old new s"
  by (cases old) (auto simp: py_startswith_def)

lemma py_replace_char:
  "py_replace [a] [b] s = map (\<lambda>c. if c = a then b else c) s"
  by (induction s) (auto simp: py_replace_def py_startswith_def)

lemma py_lstrip_hash: "\<not> py_isspace c \<Longrightarrow> py_lstrip (c # s) = c # s"
  by (simp add: py_lstrip_def)

lemma after_last_sep:
  assumes "\<forall>c\<in>set n. \<not> P c" and "x = [] \<or> P (last x)"
  shows "rev (takeWhile (\<lambda>c. \<not> P c) (rev (x @ n))) = n"
proof -
  have "takeWhile (\<lambda>c. \<not> P c) (rev x) = []"
    using assms(2) by (cases x rule: rev_cases) auto
  moreover have "takeWhile (\<lambda>c. \<not> P c) (rev n @ rev x) = rev n @ takeWhile (\<lambda>c. \<not> P c) (rev x)"
    using assms(1) by (intro takeWhile_append2) simp
  ultimately show ?thesis by simp
qed

lemma splitdrive_append:
  assumes "a \<noteq> []" and "m \<noteq> []" and "hd m \<noteq> CHR '':''"
  shows "snd (splitdrive pf (a @ m)) = snd (splitdrive pf a) @ m"
proof (cases pf)
  case Posix
  then show ?thesis by simp
next
  case Windows
  show ?thesis
  proof (cases a)
    case Nil
    with assms show ?thesis by simp
  next
    case (Cons c as)
    show ?thesis
    proof (cases as)
      case Nil
      with Cons Windows assms show ?thesis
        by (cases m) (auto simp: nth_Cons')
    next
      case (Cons c2 as2)
      with \<open>a = c # as\<close> Windows show ?thesis
        by (auto simp: nth_Cons')
    qed
  qed
qed

lemma os_sep_is_sep: "is_sep pf (os_sep pf)"
  by (cases pf) auto

lemma os_sep_not_colon: "os_sep pf \<noteq> CHR '':''"
  by (cases pf) (auto simp: backslash_def)

lemma splitdrive_join:
  assumes "a \<noteq> []" and "wf_name pf n"
  shows "snd (splitdrive pf (os_path_join pf a n)) =
     (let rest = snd (splitdrive pf a)
      in if rest \<noteq> [] \<and> \<not> is_sep pf (last rest) then rest @ [os_sep pf] @ n else rest @ n)"
proof (cases pf)
  case Posix
  then show ?thesis
    by (simp add: os_path_join_def Let_def)
next
  case Windows
  have n: "n \<noteq> []"
    using assms(2) by (rule wf_name_nonempty)
  have hn: "hd n \<noteq> CHR '':''"
    using assms(2) Windows by (simp add: wf_name_hd)
  have 1: "snd (splitdrive pf (a @ n)) = snd (splitdrive pf a) @ n"
    using assms(1) n hn by (rule splitdrive_append)
  have 2: "snd (splitdrive pf (a @ os_sep pf # n)) = snd (splitdrive pf a) @ os_sep pf # n"
    using assms(1) by (rule splitdrive_append) (simp_all add: os_sep_not_colon)
  show ?thesis
    unfolding os_path_join_def Let_def using 1 2 by (simp split: if_splits)
qed

lemma basename_join:
  assumes "a \<noteq> []" and "wf_name pf n"
  shows "os_path_basename pf (os_path_join pf a n) = n"
proof -
  let ?rest = "snd (splitdrive pf a)"
  have nosep: "\<forall>c\<in>set n. \<not> is_sep pf c"
    using assms(2) by (blast dest: wf_name_nosep)
  show ?thesis
  proof (cases "?rest \<noteq> [] \<and> \<not> is_sep pf (last ?rest)")
    case True
    then have "snd (splitdrive pf (os_path_join pf a n)) = (?rest @ [os_sep pf]) @ n"
      using splitdrive_join [OF assms] by (simp add: Let_def)
    then show ?thesis
      unfolding os_path_basename_def
      using after_last_sep [OF nosep, of "?rest @ [os_sep pf]"] by (simp add: os_sep_is_sep)
  next
    case False
    then have "snd (splitdrive pf (os_path_join pf a n)) = ?rest @ n"
      using splitdrive_join [OF assms] by (simp add: Let_def)
    then show ?thesis
      unfolding os_path_basename_def
      using after_last_sep [OF nosep, of ?rest] False by auto
  qed
qed

lemma join_nonempty: "a \<noteq> [] \<Longrightarrow> os_path_join pf a n \<noteq> []"
  by (simp add: os_path_join_def Let_def)

lemma path_of_nonempty: "root \<noteq> [] \<Longrightarrow> path_of pf root ns \<noteq> []"
  unfolding path_of_def by (induction ns arbitrary: root) (simp_all add: join_nonempty)

lemma path_of_snoc: "path_of pf root (ns @ [n]) = os_path_join pf (path_of pf root ns) n"
  by (simp add: path_of_def)

lemma path_of_Cons: "path_of pf root (n # ns) = path_of pf (os_path_join pf root n) ns"
  by (simp add: path_of_def)

lemma basename_path_of:
  assumes "root \<noteq> []" and "ns \<noteq> []" and "wf_name pf (last ns)"
  shows "os_path_basename pf (path_of pf root ns) = last ns"
proof -
  obtain ms n where ns: "ns = ms @ [n]"
    using assms(2) by (cases ns rule: rev_cases) auto
  then show ?thesis
    using assms by (simp add: path_of_snoc basename_join path_of_nonempty)
qed

lemma path_of_Nil: "path_of pf root [] = root"
  by (simp add: path_of_def)

inductive_simps dir_at_Nil: "dir_at es [] es'"

inductive_simps dir_at_Cons: "dir_at es (n # ns) es'"

lemma dir_at_snoc:
  "dir_at es (ns @ [n]) cs \<longleftrightarrow> (\<exists>es'. dir_at es ns es' \<and> Dir n cs \<in> set es')"
proof (induction ns arbitrary: es)
  case Nil
  show ?case by (auto simp: dir_at_Nil dir_at_Cons)
next
  case (Cons m ms)
  then show ?case by (auto simp: dir_at_Cons)
qed

lemma walk_characterisation:
  "(p, es') \<in> set (walk_dir pf root es) \<longleftrightarrow> (\<exists>ns. p = path_of pf root ns \<and> dir_at es ns es')"
  "(p, es') \<in> set (walk_sub pf root es) \<longleftrightarrow>
     (\<exists>n cs ns. Dir n cs \<in> set es \<and> p = path_of pf root (n # ns) \<and> dir_at cs ns es')"
proof (induction pf root es and pf root es rule: walk_dir_walk_sub.induct)
  case (1 pf root es)
  have "(\<exists>ns. p = path_of pf root ns \<and> dir_at es ns es') \<longleftrightarrow>
      (p = root \<and> es' = es) \<or>
      (\<exists>n cs ns. Dir n cs \<in> set es \<and> p = path_of pf root (n # ns) \<and> dir_at cs ns es')"
    (is "?L \<longleftrightarrow> ?A \<or> ?B")
  proof
    assume ?L
    then obtain ns where ns: "p = path_of pf root ns" "dir_at es ns es'" by blast
    from ns(2) show "?A \<or> ?B"
      using ns(1) by (cases rule: dir_at.cases) (auto simp: path_of_Nil)
  next
    assume "?A \<or> ?B"
    then show ?L
    proof
      assume ?A
      then have "p = path_of pf root [] \<and> dir_at es [] es'"
        by (simp add: path_of_Nil dir_at.here)
      then show ?L by blast
    next
      assume ?B
      then show ?L by (blast intro: dir_at.below)
    qed
  qed
  with 1 show ?case by simp
next
  case (2 pf root)
  show ?case by simp
next
  case (3 pf root n es)
  then show ?case by simp
next
  case (4 pf root n cs es)
  have "(\<exists>ns. p = path_of pf (os_path_join pf root n) ns \<and> dir_at cs ns es') \<longleftrightarrow>
        (\<exists>ns. p = path_of pf root (n # ns) \<and> dir_at cs ns es')"
    by (simp add: path_of_Cons)
  with 4 show ?case by auto
qed


section \<open>Facts about the walk and the store\<close>

lemma calls_in_dirs_iff:
  "c \<in> set (calls_in_dirs pf cfg root es) \<longleftrightarrow>
     (\<exists>cs e. Dir ''src'' cs \<in> set es \<and> e \<in> set cs \<and> py_endswith (entry_name e) ''.py'' \<and>
        c = call_for pf cfg root ''src'' (entry_name e))"
  by (induction pf cfg root es rule: calls_in_dirs.induct)
     (auto simp: calls_in_listing_def)

lemma discovered_iff:
  "c \<in> set (discovered pf cfg tree) \<longleftrightarrow>
     local_root cfg \<noteq> [] \<and>
     (\<exists>ns cs e. dir_at tree (ns @ [''src'']) cs \<and> e \<in> set cs \<and>
        py_endswith (entry_name e) ''.py'' \<and>
        c = call_for pf cfg (path_of pf (local_root cfg) ns) ''src'' (entry_name e))"
proof (cases "local_root cfg = []")
  case True
  then show ?thesis by (simp add: discovered_def os_walk_def)
next
  case False
  have "c \<in> set (discovered pf cfg tree) \<longleftrightarrow>
      (\<exists>p es. (p, es) \<in> set (walk_dir pf (local_root cfg) tree) \<and> c \<in> set (calls_in_dirs pf cfg p es))"
    using False by (auto simp: discovered_def os_walk_def)
  also have "\<dots> \<longleftrightarrow> (\<exists>ns es. dir_at tree ns es \<and>
      c \<in> set (calls_in_dirs pf cfg (path_of pf (local_root cfg) ns) es))"
    unfolding walk_characterisation(1) by blast
  also have "\<dots> \<longleftrightarrow> (\<exists>ns cs e. dir_at tree (ns @ [''src'']) cs \<and> e \<in> set cs \<and>
        py_endswith (entry_name e) ''.py'' \<and>
        c = call_for pf cfg (path_of pf (local_root cfg) ns) ''src'' (entry_name e))"
    unfolding calls_in_dirs_iff dir_at_snoc by blast
  finally show ?thesis using False by simp
qed

lemma output_path_neq_folder: "output_path cfg d \<noteq> output_folder cfg"
  by (simp add: output_path_def)

lemma output_path_inj: "output_path cfg d1 = output_path cfg d2 \<longleftrightarrow> d1 = d2"
  by (simp add: output_path_def)

lemma apply_call_eq:
  "apply_call cfg c st =
     (if \<exists>d. st (output_folder cfg) = Some (Regular d) then Inl FileExistsError
      else if st (call_path cfg c) = Some Directory then Inl IsADirectoryError
      else Inr (st(output_folder cfg \<mapsto> Directory, call_path cfg c \<mapsto> Regular (call_body cfg c))))"
  by (auto simp: apply_call_def create_deployment_yaml_def path_mkdir_def open_write_def
        call_path_def call_body_def output_path_neq_folder
      split: option.splits node.splits)

lemma call_path_neq_folder: "call_path cfg c \<noteq> output_folder cfg"
  by (simp add: call_path_def output_path_neq_folder)

lemma folder_neq_call_path: "output_folder cfg \<noteq> call_path cfg c"
  by (metis call_path_neq_folder)

lemma writable_Cons:
  "writable cfg (c # cs) st \<Longrightarrow>
   writable cfg cs (st(output_folder cfg \<mapsto> Directory, call_path cfg c \<mapsto> Regular b))"
  by (auto simp: writable_def call_path_neq_folder folder_neq_call_path)

lemma run_calls_writable:
  "writable cfg cs st \<Longrightarrow> cs \<noteq> [] \<Longrightarrow>
   run_calls cfg cs st = Inr ((st(output_folder cfg \<mapsto> Directory)) ++ map_of (rev (writes cfg cs)))"
proof (induction cs arbitrary: st)
  case Nil
  then show ?case by simp
next
  case (Cons c cs)
  let ?st1 = "st(output_folder cfg \<mapsto> Directory, call_path cfg c \<mapsto> Regular (call_body cfg c))"
  have step: "apply_call cfg c st = Inr ?st1"
    using Cons.prems(1) by (auto simp: apply_call_eq writable_def)
  have w1: "writable cfg cs ?st1"
    using Cons.prems(1) by (rule writable_Cons)
  show ?case
  proof (cases "cs = []")
    case True
    have "map_of (rev (writes cfg [c])) = [call_path cfg c \<mapsto> Regular (call_body cfg c)]"
      by (simp add: writes_def)
    then have m: "(st(output_folder cfg \<mapsto> Directory)) ++ map_of (rev (writes cfg (c # cs))) = ?st1"
      unfolding True by simp
    have r: "run_calls cfg (c # cs) st = Inr ?st1"
      using step True by simp
    show ?thesis
      unfolding r m by (rule refl)
  next
    case False
    have e: "?st1(output_folder cfg \<mapsto> Directory) = ?st1"
      by (auto simp: call_path_neq_folder folder_neq_call_path)
    have "run_calls cfg cs ?st1 =
        Inr ((?st1(output_folder cfg \<mapsto> Directory)) ++ map_of (rev (writes cfg cs)))"
      using w1 False by (rule Cons.IH)
    then have "run_calls cfg cs ?st1 = Inr (?st1 ++ map_of (rev (writes cfg cs)))"
      by (simp only: e)
    then have r: "run_calls cfg (c # cs) st = Inr (?st1 ++ map_of (rev (writes cfg cs)))"
      using step by simp
    have m: "(st(output_folder cfg \<mapsto> Directory)) ++ map_of (rev (writes cfg (c # cs))) =
        ?st1 ++ map_of (rev (writes cfg cs))"
      by (simp add: writes_def)
    show ?thesis
      unfolding r m by (rule refl)
  qed
qed

lemma run_calls_Inr_writable:
  "run_calls cfg cs st = Inr st' \<Longrightarrow> cs \<noteq> [] \<Longrightarrow> writable cfg cs st"
proof (induction cs arbitrary: st)
  case Nil
  then show ?case by simp
next
  case (Cons c cs)
  let ?st1 = "st(output_folder cfg \<mapsto> Directory, call_path cfg c \<mapsto> Regular (call_body cfg c))"
  from Cons.prems(1) have a: "\<forall>d. st (output_folder cfg) \<noteq> Some (Regular d)"
    and b: "st (call_path cfg c) \<noteq> Some Directory"
    and step: "apply_call cfg c st = Inr ?st1"
    by (auto simp: apply_call_eq split: if_splits)
  from Cons.prems(1) step have rest: "run_calls cfg cs ?st1 = Inr st'"
    by simp
  show ?case
  proof (cases "cs = []")
    case True
    with a b show ?thesis by (simp add: writable_def)
  next
    case False
    from Cons.IH [OF rest False] have "\<forall>c'\<in>set cs. ?st1 (call_path cfg c') \<noteq> Some Directory"
      by (simp add: writable_def)
    then have "\<forall>c'\<in>set cs. st (call_path cfg c') \<noteq> Some Directory"
      using b by (auto simp: call_path_neq_folder folder_neq_call_path split: if_splits)
    with a b show ?thesis by (simp add: writable_def)
  qed
qed

section \<open>Facts about the rendered text\<close>

text \<open>The template starts with a comment sign, so \<^verbatim>\<open>lstrip\<close> removes nothing.\<close>

lemma yaml_body_template:
  "yaml_body cfg pn dn ep wp si tz sa = yaml_template cfg pn dn ep wp si tz sa"
  by (simp add: yaml_body_def yaml_template_def py_lstrip_def py_isspace_def)

lemma py_endswith_refl: "py_endswith s s"
  by (simp add: py_endswith_def)

lemma py_endswith_append: "py_endswith s suf \<Longrightarrow> py_endswith (x @ s) suf"
  by (auto simp: py_endswith_def)

lemma py_endswith_concat_Cons:
  "py_endswith (concat ys) suf \<Longrightarrow> py_endswith (concat (x # ys)) suf"
  by (simp add: py_endswith_append)

lemma yaml_body_ends_with_schedules:
  "py_endswith (yaml_body cfg pn dn ep wp si tz sa) (schedules_stanza si tz sa)"
  unfolding yaml_body_template yaml_template_def schedules_stanza_def
  by (rule py_endswith_refl | rule py_endswith_concat_Cons)+

lemma py_startswith_append: "py_startswith (p @ s) p"
  by (simp add: py_startswith_def)

lemma yaml_body_starts_with_name:
  "py_startswith (yaml_body cfg pn dn ep wp si tz sa) (yaml_preamble @ ''name: '' @ pn @ ''\<newline>'')"
proof -
  have "\<exists>rest. yaml_template cfg pn dn ep wp si tz sa =
      (yaml_preamble @ ''name: '' @ pn @ ''\<newline>'') @ rest"
    by (simp add: yaml_template_def yaml_preamble_def)
  then show ?thesis
    by (auto simp: yaml_body_template py_startswith_append simp del: append_assoc)
qed

lemma yaml_body_starts_with_entrypoint:
  "py_startswith (yaml_body cfg pn dn ep wp si tz sa)
     (yaml_upto_entrypoint cfg pn dn @ ''  entrypoint: '' @ ep @ ''\<newline>'')"
proof -
  have "\<exists>rest. yaml_template cfg pn dn ep wp si tz sa =
      (yaml_upto_entrypoint cfg pn dn @ ''  entrypoint: '' @ ep @ ''\<newline>'') @ rest"
    by (simp add: yaml_template_def yaml_upto_entrypoint_def yaml_preamble_def)
  then show ?thesis
    by (auto simp: yaml_body_template py_startswith_append simp del: append_assoc)
qed


section \<open>Facts about trees without a matching directory\<close>

lemma contains_dir_iff:
  "contains_dir d es \<longleftrightarrow> (\<exists>n cs. Dir n cs \<in> set es \<and> (n = d \<or> contains_dir d cs))"
  by (induction d es rule: contains_dir.induct) auto

lemma dir_at_contains:
  "dir_at es (ns @ [d]) cs \<Longrightarrow> contains_dir d es"
proof (induction ns arbitrary: es)
  case Nil
  then show ?case by (subst contains_dir_iff) (auto simp: dir_at_Cons)
next
  case (Cons n ns)
  then show ?case by (subst contains_dir_iff) (auto simp: dir_at_Cons)
qed

lemma no_src_nothing_discovered:
  "\<not> contains_dir ''src'' tree \<Longrightarrow> discovered pf cfg tree = []"
proof (rule ccontr)
  assume a: "\<not> contains_dir ''src'' tree" and "discovered pf cfg tree \<noteq> []"
  then obtain c where "c \<in> set (discovered pf cfg tree)"
    by (cases "discovered pf cfg tree") auto
  then obtain ns cs where "dir_at tree (ns @ [''src'']) cs"
    unfolding discovered_iff by blast
  then show False
    using a dir_at_contains by blast
qed

section \<open>Facts about the store after a run\<close>

lemma writable_empty: "writable cfg cs Map.empty"
  by (simp add: writable_def)

lemma call_path_eq_iff:
  "call_path cfg c = call_path cfg c' \<longleftrightarrow> deployment_name c = deployment_name c'"
  by (simp add: call_path_def output_path_inj)

lemma create_deployment_yaml_Inr:
  assumes "create_deployment_yaml cfg pn pd dn ep wp si tz sa st = Inr st'"
  shows "st' = st(output_folder cfg \<mapsto> Directory,
                  output_path cfg dn \<mapsto> Regular (yaml_body cfg pn dn ep wp si tz sa))"
  using assms
  by (auto simp: create_deployment_yaml_def path_mkdir_def open_write_def
      split: option.splits node.splits sum.splits)

lemma apply_call_writes_body:
  "apply_call cfg c st = Inr st' \<Longrightarrow> st' (call_path cfg c) = Some (Regular (call_body cfg c))"
  by (auto simp: apply_call_eq split: if_splits)

lemma run_calls_final:
  "writable cfg cs st \<Longrightarrow> run_calls cfg cs st = Inr (final_store cfg cs st)"
  by (cases "cs = []") (simp_all add: final_store_def run_calls_writable)

lemma run_calls_Inr_final:
  assumes "run_calls cfg cs st = Inr st'"
  shows "st' = final_store cfg cs st"
proof (cases "cs = []")
  case True
  with assms show ?thesis by (simp add: final_store_def)
next
  case False
  then have "writable cfg cs st"
    using assms run_calls_Inr_writable by blast
  then show ?thesis
    using assms by (simp add: run_calls_final)
qed

lemma generator_final:
  "writable cfg (discovered pf cfg tree) st \<Longrightarrow>
   generator pf cfg tree st = Inr (final_store cfg (discovered pf cfg tree) st)"
  unfolding generator_def by (rule run_calls_final)

lemma folder_not_written: "map_of (rev (writes cfg cs)) (output_folder cfg) = None"
  by (auto simp: map_of_eq_None_iff writes_def folder_neq_call_path)

lemma written_is_regular:
  "map_of (rev (writes cfg cs)) k = Some v \<Longrightarrow>
   \<exists>c\<in>set cs. k = call_path cfg c \<and> v = Regular (call_body cfg c)"
  by (auto dest!: map_of_SomeD simp: writes_def)

lemma written_by_some_call:
  assumes "c \<in> set cs"
  shows "\<exists>c'\<in>set cs. call_path cfg c' = call_path cfg c \<and>
     map_of (rev (writes cfg cs)) (call_path cfg c) = Some (Regular (call_body cfg c'))"
proof -
  have "(call_path cfg c, Regular (call_body cfg c)) \<in> set (rev (writes cfg cs))"
    using assms by (auto simp: writes_def)
  then obtain v where v: "map_of (rev (writes cfg cs)) (call_path cfg c) = Some v"
    using weak_map_of_SomeI by fastforce
  from written_is_regular [OF v] v show ?thesis by auto
qed

lemma last_write_wins:
  assumes "\<forall>c'\<in>set post. call_path cfg c' \<noteq> call_path cfg c"
  shows "map_of (rev (writes cfg (pre @ c # post))) (call_path cfg c) =
     Some (Regular (call_body cfg c))"
proof -
  have "map_of (rev (writes cfg post)) (call_path cfg c) = None"
    using assms by (auto simp: map_of_eq_None_iff writes_def)
  moreover have "rev (writes cfg (pre @ c # post)) =
      rev (writes cfg post) @ (call_path cfg c, Regular (call_body cfg c)) # rev (writes cfg pre)"
    by (simp add: writes_def)
  ultimately show ?thesis
    by (simp add: map_add_def)
qed

lemma final_store_folder:
  "cs \<noteq> [] \<Longrightarrow> final_store cfg cs st (output_folder cfg) = Some Directory"
  by (simp add: final_store_def map_add_def folder_not_written)

lemma final_store_written:
  assumes "c \<in> set cs"
  shows "\<exists>c'\<in>set cs. call_path cfg c' = call_path cfg c \<and>
     final_store cfg cs st (call_path cfg c) = Some (Regular (call_body cfg c'))"
proof -
  from assms have "cs \<noteq> []" by auto
  with written_by_some_call [OF assms, of cfg] show ?thesis
    by (auto simp: final_store_def)
qed

lemma final_store_writable:
  "cs \<noteq> [] \<Longrightarrow> writable cfg cs (final_store cfg cs st)"
  unfolding writable_def
  using final_store_folder [of cs cfg st] final_store_written [of _ cs cfg st] by fastforce

lemma final_store_idem:
  "final_store cfg cs (final_store cfg cs st) = final_store cfg cs st"
proof (cases "cs = []")
  case True
  then show ?thesis by (simp add: final_store_def)
next
  case False
  let ?m = "map_of (rev (writes cfg cs))"
  let ?s = "(st(output_folder cfg \<mapsto> Directory)) ++ ?m"
  have "(?s(output_folder cfg \<mapsto> Directory)) ++ ?m = ?s"
  proof
    fix k
    show "((?s(output_folder cfg \<mapsto> Directory)) ++ ?m) k = ?s k"
      by (cases "?m k") (auto simp: map_add_def folder_not_written)
  qed
  then show ?thesis
    using False by (simp only: final_store_def if_False)
qed

lemma discovered_schedule:
  "c \<in> set (discovered pf cfg tree) \<Longrightarrow>
   schedule_interval c = ''3600.0'' \<and> schedule_timezone c = ''UTC'' \<and> schedule_active c = ''true''"
  unfolding discovered_iff by (auto simp: call_for_def Let_def)

section \<open>Facts about names, project names and entry points\<close>

lemma count_list_takeWhile: "count_list (takeWhile (\<lambda>c. c \<noteq> x) xs) x = 0"
  by (auto simp: count_list_0_iff dest: set_takeWhileD)

lemma levels_above_parent: "levels_above (Suc 0) (ns @ [d]) = Some ns"
  by (simp add: levels_above_def)

lemma dir_name_path_of:
  assumes "root \<noteq> []" and "list_all (wf_name pf) ns"
  shows "os_path_basename pf (path_of pf root ns) = dir_name pf root ns"
proof (cases "ns = []")
  case True
  then show ?thesis by (simp add: dir_name_def path_of_Nil)
next
  case False
  then have "wf_name pf (last ns)"
    using assms(2) by (simp add: list_all_iff)
  then show ?thesis
    using False assms(1) by (simp add: dir_name_def basename_path_of)
qed

lemma slashed_map: "slashed s = map (\<lambda>c. if c = backslash then CHR ''/'' else c) s"
  by (simp add: slashed_def py_replace_char)

lemma slashed_append: "slashed (a @ b) = slashed a @ slashed b"
  by (simp add: slashed_map)

lemma slashed_id: "backslash \<notin> set s \<Longrightarrow> slashed s = s"
  unfolding slashed_map by (induction s) auto

lemma slashed_Cons: "slashed (c # s) = slashed [c] @ slashed s"
  by (simp add: slashed_map)

lemma slashed_sep: "slashed [os_sep pf] = ''/''"
  by (cases pf) (simp_all add: slashed_map)

lemma open_ended_nonempty: "open_ended pf a \<Longrightarrow> a \<noteq> []"
  by (cases pf) (auto simp: open_ended_def)

lemma open_ended_join:
  assumes "open_ended pf a" and "wf_name pf n"
  shows "open_ended pf (os_path_join pf a n)"
    and "slashed (os_path_join pf a n) = slashed a @ ''/'' @ slashed n"
proof -
  have a: "a \<noteq> []"
    using assms(1) by (rule open_ended_nonempty)
  have n: "n \<noteq> []" "\<not> is_sep pf (last n)"
    using assms(2) wf_name_nonempty wf_name_nosep [of pf n "last n"] by auto
  have "snd (splitdrive pf (os_path_join pf a n)) = snd (splitdrive pf a) @ [os_sep pf] @ n"
    using splitdrive_join [OF a assms(2)] assms(1) by (simp add: open_ended_def Let_def)
  then show "open_ended pf (os_path_join pf a n)"
    using n by (simp add: open_ended_def)
  have "os_path_join pf a n = a @ [os_sep pf] @ n"
    using assms(1) by (simp add: os_path_join_def open_ended_def Let_def)
  then have "slashed (os_path_join pf a n) = slashed a @ slashed [os_sep pf] @ slashed n"
    by (simp only: slashed_append)
  then show "slashed (os_path_join pf a n) = slashed a @ ''/'' @ slashed n"
    by (simp only: slashed_sep)
qed

lemma slashed_path_of:
  "open_ended pf a \<Longrightarrow> list_all (plain_name pf) ns \<Longrightarrow>
   slashed (path_of pf a ns) = slashed a @ rel_path ns"
proof (induction ns arbitrary: a)
  case Nil
  then show ?case by (simp add: path_of_Nil rel_path_def)
next
  case (Cons n ns)
  have n: "wf_name pf n" "backslash \<notin> set n"
    using Cons.prems(2) by (simp_all add: plain_name_def)
  have "slashed (path_of pf (os_path_join pf a n) ns) = slashed (os_path_join pf a n) @ rel_path ns"
    using Cons.prems open_ended_join(1) [OF Cons.prems(1) n(1)] by (intro Cons.IH) simp_all
  then show ?case
    using open_ended_join(2) [OF Cons.prems(1) n(1)] n(2)
    by (simp add: path_of_Cons rel_path_def slashed_id)
qed

lemma plain_root_open_ended: "plain_root pf root \<Longrightarrow> open_ended pf root"
  by (cases pf) (auto simp: plain_root_def open_ended_def)

lemma py_replace_at_front:
  assumes "old \<noteq> []" and "\<not> occurs_in old s"
  shows "py_replace old new (old @ s) = new @ s"
  using assms by (simp add: py_replace_def replace_scan_prefix replace_scan_absent)

text \<open>
  Why the scanned root has to be plain and must not occur again. \<^verbatim>\<open>str.replace\<close>
  replaces every occurrence, so a root \<^verbatim>\<open>/src\<close> is replaced a second time inside the
  path; a root ending in a separator takes the separator with it; a root written with
  backslashes is not found once the path has been rewritten with slashes; and behind a
  bare drive \<^verbatim>\<open>os.path.join\<close> adds no separator.
\<close>

lemma entry_point_examples:
  "map entrypoint (discovered Posix (notebook_config\<lparr>local_root := ''/src''\<rparr>) one_project_tree) =
     [''/prefect/src/proj1/prefect/src/flow_a.py:flow_a'',
      ''/prefect/src/proj1/prefect/src/flow_b.py:flow_b'']"
  "map entrypoint (discovered Windows (notebook_config\<lparr>local_root := ''d:/work/''\<rparr>) one_project_tree) =
     [''/prefect/srcproj1/src/flow_a.py:flow_a'', ''/prefect/srcproj1/src/flow_b.py:flow_b'']"
  "map entrypoint
     (discovered Windows (notebook_config\<lparr>local_root := ''d:'' @ [backslash] @ ''work''\<rparr>) one_project_tree) =
     [''d:/work/proj1/src/flow_a.py:flow_a'', ''d:/work/proj1/src/flow_b.py:flow_b'']"
  "map entrypoint (discovered Windows (notebook_config\<lparr>local_root := ''d:''\<rparr>) one_project_tree) =
     [''/prefect/srcproj1/src/flow_a.py:flow_a'', ''/prefect/srcproj1/src/flow_b.py:flow_b'']"
  by code_simp+


section \<open>The claims\<close>

text \<open>
  C9. Two calls of \<^verbatim>\<open>create_deployment_yaml\<close> that differ only in \<^verbatim>\<open>project_dir\<close> do
  the same to the store: the same file with the same contents, or the same exception.
\<close>

theorem project_dir_noninterference:
  "create_deployment_yaml cfg pn pd dn ep wp si tz sa st =
   create_deployment_yaml cfg pn pd' dn ep wp si tz sa st"
  by (simp add: create_deployment_yaml_def)

text \<open>
  C8. When opening or equalising the image raises an instance of \<^verbatim>\<open>Exception\<close>,
  \<^verbatim>\<open>file_to_svg\<close> returns to its caller without an exception; it has printed the
  loading line and the failure line with the exception's text, and it has written no file.
\<close>

theorem load_failure_is_caught:
  assumes "load_image lib filename = Inl (Exception msg)"
  shows "file_to_svg lib pf filename w =
     (None, w\<lparr>console := console w @
        [''Loading image '' @ filename @ ''...'',
         ''Failed to load image '' @ filename @ '': '' @ msg]\<rparr>)"
  using assms by (simp add: file_to_svg_def py_print_def)

theorem load_failure_is_caught_witness:
  "load_image unreadable_library ''stage_main.png'' = Inl (Exception ''cannot identify image file'') \<and>
   file_to_svg unreadable_library Posix ''stage_main.png'' \<lparr>console = [], fs = Map.empty\<rparr> =
     (None, \<lparr>console = [''Loading image stage_main.png...'',
         ''Failed to load image stage_main.png: cannot identify image file''], fs = Map.empty\<rparr>)"
proof -
  have h: "load_image unreadable_library ''stage_main.png'' = Inl (Exception ''cannot identify image file'')"
    by (simp add: load_image_def unreadable_library_def)
  show ?thesis
    using h load_failure_is_caught [OF h, of Posix "\<lparr>console = [], fs = Map.empty\<rparr>"] by simp
qed

text \<open>
  C3, as amended. When no directory below the scanned root is named \<^verbatim>\<open>src\<close>, a run
  makes no call, raises nothing and leaves the output side as it was: no file is written
  and the output directory is not created.
\<close>

theorem no_src_directory_no_output:
  assumes "\<not> contains_dir ''src'' tree"
  shows "discovered pf cfg tree = [] \<and> generator pf cfg tree st = Inr st"
  using assms by (simp add: generator_def no_src_nothing_discovered)

theorem no_src_directory_no_output_witness:
  "\<not> contains_dir ''src'' [File ''README.md'', Dir ''docs'' [File ''conf.py'']] \<and>
   discovered Windows notebook_config [File ''README.md'', Dir ''docs'' [File ''conf.py'']] = [] \<and>
   generator Windows notebook_config [File ''README.md'', Dir ''docs'' [File ''conf.py'']] Map.empty
     = Inr Map.empty"
proof -
  have h: "\<not> contains_dir ''src'' [File ''README.md'', Dir ''docs'' [File ''conf.py'']]"
    by simp
  show ?thesis
    using h no_src_directory_no_output [OF h, of Windows notebook_config Map.empty] by simp
qed

text \<open>
  C3 as stated fails: on a tree with one file and no directory, started with nothing on
  the output side, the run ends with nothing there, so the output directory does not exist.
\<close>

theorem output_directory_not_created:
  "\<not> contains_dir ''src'' [File ''README.md''] \<and>
   generator Windows notebook_config [File ''README.md''] Map.empty = Inr Map.empty \<and>
   (Map.empty :: store) (output_folder notebook_config) \<noteq> Some Directory"
  by (simp add: generator_def discovered_def os_walk_def notebook_config_def)

text \<open>
  C4. A run that ends without an exception leaves a store on which a second run over the
  same tree with the same constants ends without an exception too and changes nothing:
  every file it writes already holds exactly that text.
\<close>

theorem generator_idempotent:
  assumes "generator pf cfg tree st = Inr st'"
  shows "generator pf cfg tree st' = Inr st'"
proof -
  let ?cs = "discovered pf cfg tree"
  have st': "st' = final_store cfg ?cs st"
    using assms unfolding generator_def by (rule run_calls_Inr_final)
  have "writable cfg ?cs st' \<or> ?cs = []"
    unfolding st' using final_store_writable by blast
  then have "run_calls cfg ?cs st' = Inr (final_store cfg ?cs st')"
  proof
    assume "writable cfg ?cs st'"
    then show ?thesis by (rule run_calls_final)
  next
    assume "?cs = []"
    then show ?thesis by (simp add: final_store_def)
  qed
  then show ?thesis
    unfolding generator_def st' final_store_idem .
qed

theorem generator_idempotent_witness:
  "generator Windows notebook_config collision_tree Map.empty =
     Inr (final_store notebook_config (discovered Windows notebook_config collision_tree) Map.empty) \<and>
   generator Windows notebook_config collision_tree
     (final_store notebook_config (discovered Windows notebook_config collision_tree) Map.empty) =
     Inr (final_store notebook_config (discovered Windows notebook_config collision_tree) Map.empty)"
proof -
  have h: "generator Windows notebook_config collision_tree Map.empty =
     Inr (final_store notebook_config (discovered Windows notebook_config collision_tree) Map.empty)"
    unfolding generator_def by (rule run_calls_final) (rule writable_empty)
  show ?thesis
    using h generator_idempotent [OF h] by simp
qed

text \<open>
  C5. The file a call of \<^verbatim>\<open>create_deployment_yaml\<close> writes ends with the schedules list
  in which interval, timezone and active flag are the arguments of the call, character for
  character; and the discovery loop passes \<^verbatim>\<open>3600.0\<close>, \<^verbatim>\<open>UTC\<close> and \<^verbatim>\<open>true\<close>
  in every call.
\<close>

theorem schedule_fields_echoed:
  assumes "create_deployment_yaml cfg pn pd dn ep wp si tz sa st = Inr st'"
  shows "st' (output_path cfg dn) = Some (Regular (yaml_body cfg pn dn ep wp si tz sa)) \<and>
         py_endswith (yaml_body cfg pn dn ep wp si tz sa) (schedules_stanza si tz sa) \<and>
         (\<forall>c\<in>set (discovered pf cfg tree).
            schedule_interval c = ''3600.0'' \<and> schedule_timezone c = ''UTC'' \<and>
            schedule_active c = ''true'')"
  using create_deployment_yaml_Inr [OF assms] yaml_body_ends_with_schedules discovered_schedule
  by simp

theorem schedule_fields_echoed_witness:
  "create_deployment_yaml notebook_config ''proj1'' ''/prefect/src/proj1/src'' ''flow_a''
      ''/prefect/src/proj1/src/flow_a.py:flow_a'' ''default-worker-pool''
      ''3600.0'' ''UTC'' ''true'' Map.empty =
    Inr [output_folder notebook_config \<mapsto> Directory,
         output_path notebook_config ''flow_a'' \<mapsto>
           Regular (yaml_body notebook_config ''proj1'' ''flow_a''
             ''/prefect/src/proj1/src/flow_a.py:flow_a'' ''default-worker-pool''
             ''3600.0'' ''UTC'' ''true'')] \<and>
   py_endswith
     (yaml_body notebook_config ''proj1'' ''flow_a''
        ''/prefect/src/proj1/src/flow_a.py:flow_a'' ''default-worker-pool''
        ''3600.0'' ''UTC'' ''true'')
     (schedules_stanza ''3600.0'' ''UTC'' ''true'') \<and>
   discovered Windows notebook_config collision_tree \<noteq> [] \<and>
   schedule_interval (hd (discovered Windows notebook_config collision_tree)) = ''3600.0'' \<and>
   schedule_timezone (hd (discovered Windows notebook_config collision_tree)) = ''UTC'' \<and>
   schedule_active (hd (discovered Windows notebook_config collision_tree)) = ''true''"
proof -
  have ne: "discovered Windows notebook_config collision_tree \<noteq> []"
    by code_simp
  then have m: "hd (discovered Windows notebook_config collision_tree)
      \<in> set (discovered Windows notebook_config collision_tree)"
    by simp
  have h: "create_deployment_yaml notebook_config ''proj1'' ''/prefect/src/proj1/src'' ''flow_a''
      ''/prefect/src/proj1/src/flow_a.py:flow_a'' ''default-worker-pool''
      ''3600.0'' ''UTC'' ''true'' Map.empty =
    Inr [output_folder notebook_config \<mapsto> Directory,
         output_path notebook_config ''flow_a'' \<mapsto>
           Regular (yaml_body notebook_config ''proj1'' ''flow_a''
             ''/prefect/src/proj1/src/flow_a.py:flow_a'' ''default-worker-pool''
             ''3600.0'' ''UTC'' ''true'')]"
    by (simp add: create_deployment_yaml_def path_mkdir_def open_write_def output_path_neq_folder)
  show ?thesis
    using h ne m schedule_fields_echoed [OF h, where pf = Windows and tree = collision_tree]
    by blast
qed

text \<open>
  C6. When two discovered files give the same deployment name and no later one does, the
  run raises nothing on a store it can write to, and the one output file of that name
  holds the text of the later call. Different deployment names have different output paths.
\<close>

theorem collision_last_write_wins:
  assumes "discovered pf cfg tree = pre @ c1 # mid @ c2 # post"
    and "deployment_name c1 = deployment_name c2"
    and "\<forall>c\<in>set post. deployment_name c \<noteq> deployment_name c2"
    and "writable cfg (discovered pf cfg tree) st"
  shows "\<exists>st'. generator pf cfg tree st = Inr st' \<and>
           st' (output_path cfg (deployment_name c1)) = Some (Regular (call_body cfg c2)) \<and>
           (output_path cfg d = output_path cfg d' \<longleftrightarrow> d = d')"
proof -
  let ?cs = "discovered pf cfg tree"
  have cs: "?cs = (pre @ c1 # mid) @ c2 # post"
    using assms(1) by simp
  have "\<forall>c\<in>set post. call_path cfg c \<noteq> call_path cfg c2"
    using assms(3) by (simp add: call_path_eq_iff)
  then have "map_of (rev (writes cfg ((pre @ c1 # mid) @ c2 # post))) (call_path cfg c2) =
      Some (Regular (call_body cfg c2))"
    by (rule last_write_wins)
  then have "final_store cfg ?cs st (call_path cfg c2) = Some (Regular (call_body cfg c2))"
    unfolding cs by (simp add: final_store_def)
  moreover have "call_path cfg c2 = output_path cfg (deployment_name c1)"
    using assms(2) by (simp add: call_path_def)
  ultimately show ?thesis
    using generator_final [OF assms(4)] by (simp add: output_path_inj)
qed

theorem collision_last_write_wins_witness:
  "discovered Windows notebook_config collision_tree =
     [] @ flow_a_of ''proj1'' # [] @ flow_a_of ''proj2'' # [] \<and>
   deployment_name (flow_a_of ''proj1'') = deployment_name (flow_a_of ''proj2'') \<and>
   call_body notebook_config (flow_a_of ''proj1'') \<noteq> call_body notebook_config (flow_a_of ''proj2'') \<and>
   writable notebook_config (discovered Windows notebook_config collision_tree) Map.empty \<and>
   (\<exists>st'. generator Windows notebook_config collision_tree Map.empty = Inr st' \<and>
      st' (output_path notebook_config (deployment_name (flow_a_of ''proj1''))) =
        Some (Regular (call_body notebook_config (flow_a_of ''proj2''))))"
proof -
  have d: "discovered Windows notebook_config collision_tree =
     [] @ flow_a_of ''proj1'' # [] @ flow_a_of ''proj2'' # []"
    by code_simp
  have n: "deployment_name (flow_a_of ''proj1'') = deployment_name (flow_a_of ''proj2'')"
    by code_simp
  have b: "call_body notebook_config (flow_a_of ''proj1'') \<noteq>
      call_body notebook_config (flow_a_of ''proj2'')"
    by code_simp
  have p: "\<forall>c\<in>set []. deployment_name c \<noteq> deployment_name (flow_a_of ''proj2'')"
    by simp
  have w: "writable notebook_config (discovered Windows notebook_config collision_tree) Map.empty"
    by (rule writable_empty)
  show ?thesis
    using d n b w collision_last_write_wins [OF d n p w] by blast
qed



text \<open>
  C10. For a discovered file whose name has more than one dot, the deployment name is the
  part of the name before its first dot; the output file and the entry point are built
  from that part, so the entry point names a file other than the one discovered.
\<close>

theorem deployment_name_stops_at_first_dot:
  assumes "dir_at tree (ns @ [''src'']) cs" and "e \<in> set cs"
    and "py_endswith (entry_name e) ''.py''" and "local_root cfg \<noteq> []"
    and "1 < count_list (entry_name e) CHR ''.''"
  shows "let dep = takeWhile (\<lambda>c. c \<noteq> CHR ''.'') (entry_name e);
             c = call_for pf cfg (path_of pf (local_root cfg) ns) ''src'' (entry_name e)
         in c \<in> set (discovered pf cfg tree) \<and>
            deployment_name c = dep \<and>
            call_path cfg c = output_folder cfg @ ''/'' @ dep @ ''-deploy.yaml'' \<and>
            entrypoint c =
              to_remote cfg (path_of pf (local_root cfg) ns @ ''/src/'' @ dep @ ''.py:'' @ dep) \<and>
            dep @ ''.py'' \<noteq> entry_name e"
proof -
  let ?dep = "takeWhile (\<lambda>c. c \<noteq> CHR ''.'') (entry_name e)"
  let ?c = "call_for pf cfg (path_of pf (local_root cfg) ns) ''src'' (entry_name e)"
  have mem: "?c \<in> set (discovered pf cfg tree)"
    unfolding discovered_iff using assms(1-4) by blast
  have one: "count_list (?dep @ ''.py'') CHR ''.'' = 1"
    by (simp add: count_list_takeWhile)
  have ne: "?dep @ ''.py'' \<noteq> entry_name e"
  proof
    assume "?dep @ ''.py'' = entry_name e"
    then have "count_list (entry_name e) CHR ''.'' = count_list (?dep @ ''.py'') CHR ''.''"
      by simp
    with one assms(5) show False by simp
  qed
  show ?thesis
    using mem ne
    by (simp add: Let_def call_for_def hd_py_split call_path_def output_path_def)
qed

theorem deployment_name_stops_at_first_dot_witness:
  "dir_at dotted_tree ([''proj1''] @ [''src'']) [File ''a.b.py''] \<and>
   File ''a.b.py'' \<in> set [File ''a.b.py''] \<and>
   py_endswith (entry_name (File ''a.b.py'')) ''.py'' \<and>
   local_root notebook_config \<noteq> [] \<and>
   1 < count_list (entry_name (File ''a.b.py'')) CHR ''.'' \<and>
   map (\<lambda>c. (deployment_name c, call_path notebook_config c, entrypoint c))
       (discovered Windows notebook_config dotted_tree) =
     [(''a'', ''d:/exports/prefect_jobs/a-deploy.yaml'', ''/prefect/src/proj1/src/a.py:a'')] \<and>
   (let dep = takeWhile (\<lambda>c. c \<noteq> CHR ''.'') (entry_name (File ''a.b.py''));
        c = call_for Windows notebook_config
              (path_of Windows (local_root notebook_config) [''proj1'']) ''src''
              (entry_name (File ''a.b.py''))
    in c \<in> set (discovered Windows notebook_config dotted_tree) \<and>
       deployment_name c = dep \<and>
       call_path notebook_config c = output_folder notebook_config @ ''/'' @ dep @ ''-deploy.yaml'' \<and>
       entrypoint c =
         to_remote notebook_config
           (path_of Windows (local_root notebook_config) [''proj1''] @ ''/src/'' @ dep @ ''.py:'' @ dep) \<and>
       dep @ ''.py'' \<noteq> entry_name (File ''a.b.py''))"
proof -
  have 1: "dir_at dotted_tree ([''proj1''] @ [''src'']) [File ''a.b.py'']"
    by (simp add: dotted_tree_def dir_at_Cons dir_at_Nil)
  have 2: "File ''a.b.py'' \<in> set [File ''a.b.py'']"
    by simp
  have 3: "py_endswith (entry_name (File ''a.b.py'')) ''.py''"
    by (simp add: py_endswith_def)
  have 4: "local_root notebook_config \<noteq> []"
    by (simp add: notebook_config_def)
  have 5: "1 < count_list (entry_name (File ''a.b.py'')) CHR ''.''"
    by simp
  have 6: "map (\<lambda>c. (deployment_name c, call_path notebook_config c, entrypoint c))
       (discovered Windows notebook_config dotted_tree) =
     [(''a'', ''d:/exports/prefect_jobs/a-deploy.yaml'', ''/prefect/src/proj1/src/a.py:a'')]"
    by code_simp
  show ?thesis
    using 1 2 3 4 5 6 deployment_name_stops_at_first_dot [OF 1 2 3 4 5, of Windows]
    by blast
qed

text \<open>
  C2, as amended. For every discovered file the project name, and with it the top-level
  \<^verbatim>\<open>name\<close> field of the output, is the name of the directory that holds the matched
  \<^verbatim>\<open>src\<close> directory: one level above \<^verbatim>\<open>src\<close>, two levels above the file.
\<close>

theorem project_name_is_parent_of_src:
  assumes "dir_at tree (ns @ [''src'']) cs" and "e \<in> set cs"
    and "py_endswith (entry_name e) ''.py''" and "local_root cfg \<noteq> []"
    and "list_all (wf_name pf) ns"
  shows "let c = call_for pf cfg (path_of pf (local_root cfg) ns) ''src'' (entry_name e)
         in c \<in> set (discovered pf cfg tree) \<and>
            levels_above 1 (ns @ [''src'']) = Some ns \<and>
            project_name c = dir_name pf (local_root cfg) ns \<and>
            py_startswith (call_body cfg c)
              (yaml_preamble @ ''name: '' @ dir_name pf (local_root cfg) ns @ ''\<newline>'')"
proof -
  let ?c = "call_for pf cfg (path_of pf (local_root cfg) ns) ''src'' (entry_name e)"
  have mem: "?c \<in> set (discovered pf cfg tree)"
    unfolding discovered_iff using assms(1-4) by blast
  have pn: "project_name ?c = dir_name pf (local_root cfg) ns"
    using dir_name_path_of [OF assms(4,5)] by (simp add: call_for_def Let_def)
  have "py_startswith (call_body cfg ?c) (yaml_preamble @ ''name: '' @ project_name ?c @ ''\<newline>'')"
    unfolding call_body_def by (rule yaml_body_starts_with_name)
  then show ?thesis
    using mem pn by (simp add: Let_def levels_above_parent)
qed

theorem project_name_is_parent_of_src_witness:
  "dir_at one_project_tree ([''proj1''] @ [''src'']) [File ''flow_a.py'', File ''flow_b.py''] \<and>
   File ''flow_a.py'' \<in> set [File ''flow_a.py'', File ''flow_b.py''] \<and>
   py_endswith (entry_name (File ''flow_a.py'')) ''.py'' \<and>
   local_root notebook_config \<noteq> [] \<and>
   list_all (wf_name Windows) [''proj1''] \<and>
   dir_name Windows (local_root notebook_config) [''proj1''] = ''proj1'' \<and>
   (let c = call_for Windows notebook_config
              (path_of Windows (local_root notebook_config) [''proj1'']) ''src''
              (entry_name (File ''flow_a.py''))
    in c \<in> set (discovered Windows notebook_config one_project_tree) \<and>
       levels_above 1 ([''proj1''] @ [''src'']) = Some [''proj1''] \<and>
       project_name c = dir_name Windows (local_root notebook_config) [''proj1''] \<and>
       py_startswith (call_body notebook_config c)
         (yaml_preamble @ ''name: '' @ dir_name Windows (local_root notebook_config) [''proj1'']
            @ ''\<newline>''))"
proof -
  have 1: "dir_at one_project_tree ([''proj1''] @ [''src'']) [File ''flow_a.py'', File ''flow_b.py'']"
    by (simp add: one_project_tree_def dir_at_Cons dir_at_Nil)
  have 2: "File ''flow_a.py'' \<in> set [File ''flow_a.py'', File ''flow_b.py'']"
    by simp
  have 3: "py_endswith (entry_name (File ''flow_a.py'')) ''.py''"
    by (simp add: py_endswith_def)
  have 4: "local_root notebook_config \<noteq> []"
    by (simp add: notebook_config_def)
  have 5: "list_all (wf_name Windows) [''proj1'']"
    by (simp add: backslash_def)
  have 6: "dir_name Windows (local_root notebook_config) [''proj1''] = ''proj1''"
    by (simp add: dir_name_def)
  show ?thesis
    using 1 2 3 4 5 6 project_name_is_parent_of_src [OF 1 2 3 4 5] by blast
qed

text \<open>
  C2 as stated fails: for \<^verbatim>\<open>proj1/src/flow_a.py\<close> the project name is \<^verbatim>\<open>proj1\<close>,
  while the directory two levels above the matched \<^verbatim>\<open>src\<close> directory is the scanned
  root, whose name is \<^verbatim>\<open>src\<close> for the notebook's constants.
\<close>

theorem project_name_not_two_levels_above_src:
  "dir_at one_project_tree [''proj1'', ''src''] [File ''flow_a.py'', File ''flow_b.py''] \<and>
   map project_name (discovered Windows notebook_config one_project_tree) = [''proj1'', ''proj1''] \<and>
   map_option (dir_name Windows (local_root notebook_config)) (levels_above 2 [''proj1'', ''src''])
     = Some ''src'' \<and>
   ''proj1'' \<noteq> ''src''"
proof -
  have 1: "dir_at one_project_tree [''proj1'', ''src''] [File ''flow_a.py'', File ''flow_b.py'']"
    by (simp add: one_project_tree_def dir_at_Cons dir_at_Nil)
  have 2: "map project_name (discovered Windows notebook_config one_project_tree) = [''proj1'', ''proj1'']"
    by code_simp
  have 3: "map_option (dir_name Windows (local_root notebook_config)) (levels_above 2 [''proj1'', ''src''])
     = Some ''src''"
    by code_simp
  show ?thesis
    using 1 2 3 by simp
qed

text \<open>
  C1, as amended. For a discovered file \<^verbatim>\<open>b.py\<close> whose stem \<open>b\<close> has neither dot nor
  backslash, below a plain scanned root (it has a part behind the drive, so it is neither
  empty nor a bare drive, it does not end in a separator and has no backslash) through
  plain directory names, and when the text of the scanned root does not occur again behind
  it: the entry point is the remote root followed by the relative path of the file, a
  colon and \<open>b\<close>; the text the call renders has it in its \<^verbatim>\<open>entrypoint\<close> field, behind
  the fixed lines and the two name fields; and that text is what a call that raises
  nothing leaves in the output file.
\<close>

theorem entry_point_substitution:
  assumes "dir_at tree (ns @ [''src'']) cs" and "e \<in> set cs"
    and "entry_name e = b @ ''.py''" and "CHR ''.'' \<notin> set b" and "backslash \<notin> set b"
    and "plain_root pf (local_root cfg)" and "list_all (plain_name pf) ns"
    and "\<not> occurs_in (local_root cfg) (rel_path ns @ ''/src/'' @ b @ ''.py:'' @ b)"
  shows "let c = call_for pf cfg (path_of pf (local_root cfg) ns) ''src'' (entry_name e)
         in c \<in> set (discovered pf cfg tree) \<and>
            deployment_name c = b \<and>
            entrypoint c = substituted_entrypoint cfg ns (entry_name e) (deployment_name c) \<and>
            py_startswith (call_body cfg c)
              (yaml_upto_entrypoint cfg (project_name c) (deployment_name c) @
               ''  entrypoint: '' @
               substituted_entrypoint cfg ns (entry_name e) (deployment_name c) @ ''\<newline>'') \<and>
            (apply_call cfg c st = Inr st' \<longrightarrow>
               st' (call_path cfg c) = Some (Regular (call_body cfg c)))"
proof -
  let ?root = "path_of pf (local_root cfg) ns"
  let ?c = "call_for pf cfg ?root ''src'' (entry_name e)"
  have oe: "open_ended pf (local_root cfg)"
    using assms(6) by (rule plain_root_open_ended)
  then have ne: "local_root cfg \<noteq> []"
    by (rule open_ended_nonempty)
  have py: "py_endswith (entry_name e) ''.py''"
    by (simp add: assms(3) py_endswith_def)
  have mem: "?c \<in> set (discovered pf cfg tree)"
    unfolding discovered_iff using assms(1,2) py ne by blast
  have "takeWhile (\<lambda>c. c \<noteq> CHR ''.'') (b @ ''.py'') =
      b @ takeWhile (\<lambda>c. c \<noteq> CHR ''.'') ''.py''"
    using assms(4) by (intro takeWhile_append2) auto
  then have dep: "hd (py_split CHR ''.'' (b @ ''.py'')) = b"
    by (simp add: hd_py_split)
  have dn: "deployment_name ?c = b"
    by (simp add: call_for_def Let_def assms(3) dep)
  have "slashed ?root = local_root cfg @ rel_path ns"
    using slashed_path_of [OF oe assms(7)] assms(6) by (simp add: plain_root_def slashed_id)
  then have "slashed (?root @ ''/'' @ ''src'' @ ''/'' @ b @ ''.py:'' @ b) =
      local_root cfg @ (rel_path ns @ ''/src/'' @ b @ ''.py:'' @ b)"
    using assms(5) by (simp add: slashed_append slashed_id backslash_def)
  then have "to_remote cfg (?root @ ''/'' @ ''src'' @ ''/'' @ b @ ''.py:'' @ b) =
      src_root cfg @ rel_path ns @ ''/src/'' @ b @ ''.py:'' @ b"
    unfolding to_remote_def slashed_def [symmetric]
    using py_replace_at_front [OF ne assms(8)] by simp
  then have ep: "entrypoint ?c = substituted_entrypoint cfg ns (entry_name e) (deployment_name ?c)"
    unfolding dn by (simp add: call_for_def Let_def assms(3) dep substituted_entrypoint_def)
  have "py_startswith (call_body cfg ?c)
      (yaml_upto_entrypoint cfg (project_name ?c) (deployment_name ?c) @
       ''  entrypoint: '' @ entrypoint ?c @ ''\<newline>'')"
    unfolding call_body_def by (rule yaml_body_starts_with_entrypoint)
  then have line: "py_startswith (call_body cfg ?c)
      (yaml_upto_entrypoint cfg (project_name ?c) (deployment_name ?c) @
       ''  entrypoint: '' @
       substituted_entrypoint cfg ns (entry_name e) (deployment_name ?c) @ ''\<newline>'')"
    by (simp only: ep)
  have written: "apply_call cfg ?c st = Inr st' \<longrightarrow>
      st' (call_path cfg ?c) = Some (Regular (call_body cfg ?c))"
    by (blast intro: apply_call_writes_body)
  show ?thesis
    unfolding Let_def using mem dn ep line written by blast
qed

theorem entry_point_substitution_witness:
  "dir_at one_project_tree ([''proj1''] @ [''src'']) [File ''flow_a.py'', File ''flow_b.py''] \<and>
   File ''flow_a.py'' \<in> set [File ''flow_a.py'', File ''flow_b.py''] \<and>
   entry_name (File ''flow_a.py'') = ''flow_a'' @ ''.py'' \<and>
   CHR ''.'' \<notin> set ''flow_a'' \<and> backslash \<notin> set ''flow_a'' \<and>
   plain_root Windows (local_root notebook_config) \<and>
   list_all (plain_name Windows) [''proj1''] \<and>
   \<not> occurs_in (local_root notebook_config)
       (rel_path [''proj1''] @ ''/src/'' @ ''flow_a'' @ ''.py:'' @ ''flow_a'') \<and>
   substituted_entrypoint notebook_config [''proj1''] ''flow_a.py'' ''flow_a'' =
     ''/prefect/src/proj1/src/flow_a.py:flow_a'' \<and>
   (let c = call_for Windows notebook_config
              (path_of Windows (local_root notebook_config) [''proj1'']) ''src'' ''flow_a.py''
    in c \<in> set (discovered Windows notebook_config one_project_tree) \<and>
       deployment_name c = ''flow_a'' \<and>
       entrypoint c = ''/prefect/src/proj1/src/flow_a.py:flow_a'' \<and>
       py_startswith (call_body notebook_config c)
         (yaml_upto_entrypoint notebook_config (project_name c) ''flow_a'' @
          ''  entrypoint: '' @ ''/prefect/src/proj1/src/flow_a.py:flow_a'' @ ''\<newline>'') \<and>
       apply_call notebook_config c Map.empty =
         Inr [output_folder notebook_config \<mapsto> Directory,
              call_path notebook_config c \<mapsto> Regular (call_body notebook_config c)] \<and>
       [output_folder notebook_config \<mapsto> Directory,
        call_path notebook_config c \<mapsto> Regular (call_body notebook_config c)]
         (call_path notebook_config c) = Some (Regular (call_body notebook_config c)))"
proof -
  let ?c = "call_for Windows notebook_config
              (path_of Windows (local_root notebook_config) [''proj1'']) ''src'' ''flow_a.py''"
  let ?st' = "[output_folder notebook_config \<mapsto> Directory,
              call_path notebook_config ?c \<mapsto> Regular (call_body notebook_config ?c)]"
  have 1: "dir_at one_project_tree ([''proj1''] @ [''src'']) [File ''flow_a.py'', File ''flow_b.py'']"
    by (simp add: one_project_tree_def dir_at_Cons dir_at_Nil)
  have 2: "File ''flow_a.py'' \<in> set [File ''flow_a.py'', File ''flow_b.py'']"
    by simp
  have 3: "entry_name (File ''flow_a.py'') = ''flow_a'' @ ''.py''"
    by simp
  have 4: "CHR ''.'' \<notin> set ''flow_a''"
    by simp
  have 5: "backslash \<notin> set ''flow_a''"
    by (simp add: backslash_def)
  have 6: "plain_root Windows (local_root notebook_config)"
    by code_simp
  have 7: "list_all (plain_name Windows) [''proj1'']"
    by code_simp
  have 8: "\<not> occurs_in (local_root notebook_config)
       (rel_path [''proj1''] @ ''/src/'' @ ''flow_a'' @ ''.py:'' @ ''flow_a'')"
    by code_simp
  have 9: "substituted_entrypoint notebook_config [''proj1''] ''flow_a.py'' ''flow_a'' =
     ''/prefect/src/proj1/src/flow_a.py:flow_a''"
    by code_simp
  have a: "apply_call notebook_config ?c Map.empty = Inr ?st'"
    by (simp add: apply_call_eq)
  note t = entry_point_substitution [OF 1 2 3 4 5 6 7 8, where st = Map.empty and st' = ?st',
      unfolded Let_def entry_name.simps]
  from t have m: "?c \<in> set (discovered Windows notebook_config one_project_tree)"
    by (rule conjunct1)
  from t have d: "deployment_name ?c = ''flow_a''"
    by (elim conjE)
  from t have "entrypoint ?c =
      substituted_entrypoint notebook_config [''proj1''] ''flow_a.py'' (deployment_name ?c)"
    by (elim conjE)
  then have e: "entrypoint ?c = ''/prefect/src/proj1/src/flow_a.py:flow_a''"
    by (simp only: d 9)
  from t have "py_startswith (call_body notebook_config ?c)
      (yaml_upto_entrypoint notebook_config (project_name ?c) (deployment_name ?c) @
       ''  entrypoint: '' @
       substituted_entrypoint notebook_config [''proj1''] ''flow_a.py'' (deployment_name ?c) @
       ''\<newline>'')"
    by (elim conjE)
  then have l: "py_startswith (call_body notebook_config ?c)
      (yaml_upto_entrypoint notebook_config (project_name ?c) ''flow_a'' @
       ''  entrypoint: '' @ ''/prefect/src/proj1/src/flow_a.py:flow_a'' @ ''\<newline>'')"
    by (simp only: d 9)
  from t have "apply_call notebook_config ?c Map.empty = Inr ?st' \<longrightarrow>
      ?st' (call_path notebook_config ?c) = Some (Regular (call_body notebook_config ?c))"
    by (elim conjE)
  with a have w: "?st' (call_path notebook_config ?c) = Some (Regular (call_body notebook_config ?c))"
    by (rule rev_mp)
  show ?thesis
    unfolding Let_def using 1 2 3 4 5 6 7 8 9 m d e l a w by (intro conjI) assumption+
qed

text \<open>
  C1 as stated fails: for the discovered file \<^verbatim>\<open>a.b.py\<close> the entry point names
  \<^verbatim>\<open>a.py\<close>, not the file's path followed by the deployment name.
\<close>

theorem entry_point_names_another_file:
  "dir_at dotted_tree [''proj1'', ''src''] [File ''a.b.py''] \<and>
   map (\<lambda>c. (deployment_name c, entrypoint c)) (discovered Windows notebook_config dotted_tree) =
     [(''a'', ''/prefect/src/proj1/src/a.py:a'')] \<and>
   substituted_entrypoint notebook_config [''proj1''] ''a.b.py'' ''a'' =
     ''/prefect/src/proj1/src/a.b.py:a'' \<and>
   ''/prefect/src/proj1/src/a.py:a'' \<noteq> ''/prefect/src/proj1/src/a.b.py:a''"
proof -
  have 1: "dir_at dotted_tree [''proj1'', ''src''] [File ''a.b.py'']"
    by (simp add: dotted_tree_def dir_at_Cons dir_at_Nil)
  have 2: "map (\<lambda>c. (deployment_name c, entrypoint c)) (discovered Windows notebook_config dotted_tree) =
     [(''a'', ''/prefect/src/proj1/src/a.py:a'')]"
    by code_simp
  have 3: "substituted_entrypoint notebook_config [''proj1''] ''a.b.py'' ''a'' =
     ''/prefect/src/proj1/src/a.b.py:a''"
    by code_simp
  show ?thesis
    using 1 2 3 by simp
qed

end
